theory Spec2Isabelle
  imports Complex_Main "HOL-Library.Multiset" "HOL-Library.Word"
begin

section \<open>Shared pandas operations\<close>

text \<open>
  The two notebooks are sequences of pandas calls on tables. A table is a list of rows
  in row order; a column holding floating-point numbers is a column of \<open>real\<close>, and a
  missing entry (NaN) of such a column is \<open>None\<close>. Of these numbers only comparisons,
  sums and one division per mean are taken; the conversion of a 64-bit integer to a
  floating-point number is written out, since it rounds large integers.
\<close>

datatype error = IndexError | KeyError | ValueError

text \<open>
  \<^verbatim>\<open>xs.iloc[i]\<close>: positional access. A negative position counts from the end, a position
  outside the table raises IndexError. The result carries the label of the row, which
  on a default index is its position from the front.
\<close>

definition iloc :: "'a list \<Rightarrow> int \<Rightarrow> error + (int \<times> 'a)" where
  "iloc xs i =
     (let n = int (length xs);
          pos = (if i < 0 then n + i else i)
      in if pos < 0 \<or> n \<le> pos then Inl IndexError else Inr (pos, xs ! nat pos))"

text \<open>
  \<^verbatim>\<open>xs.iloc[:n]\<close>: a positional slice. With \<open>n\<close> negative the slice stops \<open>-n\<close> rows
  before the end.
\<close>

definition iloc_upto :: "int \<Rightarrow> 'a list \<Rightarrow> 'a list" where
  "iloc_upto n xs = (if 0 \<le> n then take (nat n) xs else take (length xs - nat (- n)) xs)"

text \<open>
  \<^verbatim>\<open>keys.argsort(kind='quicksort')\<close> of numpy: the positions of the array in ascending
  order of their entries. On an array of at most 16 entries numpy's quicksort is an
  insertion sort, which leaves equal entries in the order of their positions. On a
  longer array it partitions around pivots first; the order it gives to equal entries
  there is not fixed by anything in the notebooks, and \<open>introsort_order\<close> stands for
  it: some function of the array of which it is only known that it returns the
  positions of the array, each once, in ascending order of their entries. For an array
  without equal entries this is one order only.
\<close>

definition introsort_order :: "'k::linorder list \<Rightarrow> nat list" where
  "introsort_order =
     (SOME a. \<forall>ks. mset (a ks) = mset [0..<length ks] \<and> sorted (map (\<lambda>i. ks ! i) (a ks)))"

definition argsort :: "'k::linorder list \<Rightarrow> nat list" where
  "argsort ks =
     (if length ks \<le> 16 then sort_key (\<lambda>i. ks ! i) [0..<length ks] else introsort_order ks)"

text \<open>
  \<^verbatim>\<open>df.sort_values(col, ascending=False)\<close>. pandas sorts the positions of the entries
  that are not NaN: for a descending sort it reverses them, takes their \<^verbatim>\<open>argsort\<close>,
  and reverses the result; the rows whose entry is NaN follow, in row order.
\<close>

definition sort_values_desc :: "('a \<Rightarrow> 'k::linorder option) \<Rightarrow> 'a list \<Rightarrow> 'a list" where
  "sort_values_desc col df =
     (let non_nans = rev (filter (\<lambda>r. col r \<noteq> None) df);
          indexer = argsort (map (\<lambda>r. the (col r)) non_nans)
      in rev (map (\<lambda>i. non_nans ! i) indexer) @ filter (\<lambda>r. col r = None) df)"

text \<open>
  \<^verbatim>\<open>left.merge(right, how='left', left_on=kl, right_on=kr)\<close>: every row of \<open>left\<close>, in
  order, joined with each row of \<open>right\<close> that has its key; a row without a partner is
  kept with the right-hand columns missing.
\<close>

definition merge_left ::
  "('a \<Rightarrow> int) \<Rightarrow> ('b \<Rightarrow> int) \<Rightarrow> 'a list \<Rightarrow> 'b list \<Rightarrow> ('a \<times> 'b option) list" where
  "merge_left kl kr left right =
     concat (map (\<lambda>l. case filter (\<lambda>r. kr r = kl l) right of
                         [] \<Rightarrow> [(l, None)]
                       | ms \<Rightarrow> map (\<lambda>r. (l, Some r)) ms) left)"

section \<open>MovieLens notebook: the tables\<close>

record movie_row =
  MovieID :: int
  Title :: string
  Genres :: string

text \<open>
  A row of \<^verbatim>\<open>ratings_df\<close>; its column \<^verbatim>\<open>MovieID\<close> is the field \<open>RMovieID\<close>. The table
  is built with \<^verbatim>\<open>dtype = int\<close>, so a rating is a signed 64-bit integer, read with
  \<open>sint\<close>. The ids are labels only and are kept as integers.
\<close>

record rating_row =
  UserID :: int
  RMovieID :: int
  Rating :: "64 word"
  Timestamp :: int

text \<open>
  \<^verbatim>\<open>preds_df\<close>: one column per movie id, one row per user, on a default index
  \<open>0, 1, ...\<close>.
\<close>

record preds_frame =
  pcolumns :: "int list"
  prows :: "real list list"

section \<open>MovieLens notebook: recommend_movies\<close>

text \<open>
  The function reads the notebook's global \<^verbatim>\<open>preds_df\<close>, not its parameter
  \<^verbatim>\<open>predictions_df\<close>; the global is the first argument here. The two \<^verbatim>\<open>print\<close>
  statements are left out. \<^verbatim>\<open>rename\<close> names the prediction column only when its label
  is \<^verbatim>\<open>user_row_number\<close>; otherwise sorting by \<^verbatim>\<open>'Predictions'\<close> raises KeyError. The
  result drops the last column, the predictions, and keeps the movie columns.
\<close>

definition recommend_movies ::
  "preds_frame \<Rightarrow> preds_frame \<Rightarrow> int \<Rightarrow> movie_row list \<Rightarrow> rating_row list \<Rightarrow> int
     \<Rightarrow> error + ((rating_row \<times> movie_row option) list \<times> movie_row list)" where
  "recommend_movies preds_df predictions_df userID movies_df original_ratings_df
       num_recommendations =
     (let user_row_number = userID - 1 in
      case iloc (prows preds_df) user_row_number of
        Inl e \<Rightarrow> Inl e
      | Inr (label, row) \<Rightarrow>
          (let sorted_user_predictions =
                 sort_values_desc (\<lambda>c. Some (snd c)) (zip (pcolumns preds_df) row);
               user_data = filter (\<lambda>r. UserID r = userID) original_ratings_df;
               user_full =
                 sort_values_desc (\<lambda>j. Some (sint (Rating (fst j))))
                   (merge_left RMovieID MovieID user_data movies_df);
               unrated =
                 filter (\<lambda>m. MovieID m \<notin> set (map (\<lambda>j. RMovieID (fst j)) user_full))
                   movies_df;
               merged = merge_left MovieID fst unrated sorted_user_predictions
           in if label \<noteq> user_row_number then Inl KeyError
              else Inr (user_full,
                        map fst (iloc_upto num_recommendations
                          (sort_values_desc (\<lambda>j. map_option snd (snd j)) merged)))))"

section \<open>MovieLens notebook: the ratings matrix and the user means\<close>

text \<open>
  A table with row labels, column labels and one cell for every pair of a row label and
  a column label.
\<close>

record 'v frame =
  row_labels :: "int list"
  col_labels :: "int list"
  cells :: "'v list list"

text \<open>
  \<^verbatim>\<open>frame.loc[r, c]\<close>: the cell at a row label and a column label, KeyError when a label
  is not in the table.
\<close>

definition loc :: "'v frame \<Rightarrow> int \<Rightarrow> int \<Rightarrow> error + 'v" where
  "loc fr r c =
     (case map_of (zip (row_labels fr) (cells fr)) r of
        None \<Rightarrow> Inl KeyError
      | Some row \<Rightarrow>
          (case map_of (zip (col_labels fr) row) c of
             None \<Rightarrow> Inl KeyError
           | Some v \<Rightarrow> Inr v))"

text \<open>
  An entry of a numeric table: a signed 64-bit integer or a double. The doubles that
  occur are sums and quotients of integers and are kept as real numbers; the one place
  where a double cannot hold the number it is given, the conversion of a large integer,
  is \<open>float64_of_int\<close>.
\<close>

datatype scalar = Int64 int | Float64 real

text \<open>The number of binary digits of a positive integer.\<close>

function bit_length :: "int \<Rightarrow> nat" where
  "bit_length a = (if a \<le> 0 then 0 else Suc (bit_length (a div 2)))"
  by auto
termination
  by (relation "measure nat") auto

declare bit_length.simps [simp del]

text \<open>
  The double nearest to an integer, a tie going to the even mantissa: an integer of
  magnitude up to \<open>2 ^ 53\<close> is kept, a larger one is rounded to 53 significant bits.
\<close>

definition float64_of_int :: "int \<Rightarrow> real" where
  "float64_of_int x =
     (if \<bar>x\<bar> \<le> 2 ^ 53 then of_int x
      else
        (let d = 2 ^ (bit_length \<bar>x\<bar> - 53);
             q = \<bar>x\<bar> div d;
             r = \<bar>x\<bar> mod d;
             m = (if 2 * r < d \<or> (2 * r = d \<and> even q) then q else q + 1)
         in of_int (sgn x * m * d)))"

definition to_float :: "scalar \<Rightarrow> real" where
  "to_float v = (case v of Int64 k \<Rightarrow> float64_of_int k | Float64 x \<Rightarrow> x)"

text \<open>
  \<^verbatim>\<open>ratings_df.pivot(index = 'UserID', columns = 'MovieID', values = 'Rating')\<close>: one
  row per user and one column per movie, both in ascending order of the ids; a pair
  without a rating is NaN. When every pair has a rating the matrix keeps the integers;
  as soon as one pair is missing, the whole matrix is of doubles. \<^verbatim>\<open>pivot\<close> raises
  ValueError (\<^verbatim>\<open>Index contains duplicate entries, cannot reshape\<close>) when two rows of
  the table have the same user and movie.
\<close>

definition pivot :: "rating_row list \<Rightarrow> error + scalar option frame" where
  "pivot ratings_df =
     (if \<not> distinct (map (\<lambda>r. (UserID r, RMovieID r)) ratings_df) then Inl ValueError
      else
        (let users = sort (remdups (map UserID ratings_df));
             movies = sort (remdups (map RMovieID ratings_df));
             found = map (\<lambda>u. map (\<lambda>m.
                        map_option (\<lambda>r. sint (Rating r))
                          (find (\<lambda>r. UserID r = u \<and> RMovieID r = m) ratings_df)) movies) users
         in Inr \<lparr>row_labels = users, col_labels = movies,
                 cells =
                   (if None \<in> set (concat found)
                    then map (map (map_option (\<lambda>k. Float64 (float64_of_int k)))) found
                    else map (map (map_option Int64)) found)\<rparr>))"

text \<open>\<^verbatim>\<open>.fillna(0)\<close>: a table of integers has no NaN to fill.\<close>

definition fillna :: "real \<Rightarrow> scalar option frame \<Rightarrow> scalar frame" where
  "fillna v fr =
     \<lparr>row_labels = row_labels fr, col_labels = col_labels fr,
      cells = map (map (\<lambda>c. case c of None \<Rightarrow> Float64 v | Some x \<Rightarrow> x)) (cells fr)\<rparr>"

definition R_df :: "rating_row list \<Rightarrow> error + scalar frame" where
  "R_df ratings_df =
     (case pivot ratings_df of Inl e \<Rightarrow> Inl e | Inr fr \<Rightarrow> Inr (fillna 0 fr))"

text \<open>\<^verbatim>\<open>np.mean\<close> of a list of doubles; of no numbers it is NaN.\<close>

definition np_mean :: "real list \<Rightarrow> real option" where
  "np_mean xs = (if xs = [] then None else Some (sum_list xs / real (length xs)))"

text \<open>
  \<^verbatim>\<open>R = R_df.as_matrix(); user_ratings_mean = np.mean(R, axis = 1)\<close>: one mean for each
  row of the matrix. \<^verbatim>\<open>np.mean\<close> adds the entries as doubles, also those of a matrix
  of integers.
\<close>

definition user_ratings_mean :: "rating_row list \<Rightarrow> error + real option list" where
  "user_ratings_mean ratings_df =
     (case R_df ratings_df of
        Inl e \<Rightarrow> Inl e
      | Inr R \<Rightarrow> Inr (map (\<lambda>row. np_mean (map to_float row)) (cells R)))"

section \<open>Netflix notebook: data slicing and the customer-by-movie matrix\<close>

text \<open>
  A row of \<^verbatim>\<open>df\<close> after the data cleaning: the rows without a rating are removed and
  both ids are integers. The column \<^verbatim>\<open>Rating\<close> is the field \<open>NRating\<close>.
\<close>

record nf_row =
  Cust_Id :: int
  NRating :: real
  Movie_Id :: int








text \<open>
  \<^verbatim>\<open>df.groupby(k)['Rating'].agg(['count', 'mean'])\<close>: one row for each value of the
  column \<open>k\<close>, in ascending order, with the number of its ratings and their mean.
\<close>

record summary_row =
  s_key :: int
  s_count :: nat
  s_mean :: "real option"

definition groupby_agg :: "(nf_row \<Rightarrow> int) \<Rightarrow> nf_row list \<Rightarrow> summary_row list" where
  "groupby_agg k df =
     map (\<lambda>g. let rs = map NRating (filter (\<lambda>r. k r = g) df)
              in \<lparr>s_key = g, s_count = length rs, s_mean = np_mean rs\<rparr>)
         (sort (remdups (map k df)))"

text \<open>
  \<^verbatim>\<open>Series.quantile(q)\<close> with linear interpolation between the two closest ranks; NaN
  on an empty column.
\<close>

definition quantile :: "real \<Rightarrow> real list \<Rightarrow> real option" where
  "quantile q xs =
     (if xs = [] then None
      else
        (let s = sort xs;
             h = q * real (length xs - 1);
             lo = nat \<lfloor>h\<rfloor>;
             hi = min (Suc lo) (length xs - 1)
         in Some (s ! lo + (h - real lo) * (s ! hi - s ! lo))))"

text \<open>\<^verbatim>\<open>round(x, 0)\<close> of Python 2: to the nearest integer, a half away from zero.\<close>

definition py_round :: "real \<Rightarrow> real" where
  "py_round x =
     (if 0 \<le> x then real_of_int \<lfloor>x + 1 / 2\<rfloor> else - real_of_int \<lfloor>- x + 1 / 2\<rfloor>)"

definition benchmark :: "summary_row list \<Rightarrow> real option" where
  "benchmark summary = map_option py_round (quantile (4 / 5) (map (\<lambda>s. real (s_count s)) summary))"

text \<open>
  \<^verbatim>\<open>summary[summary['count'] < benchmark].index\<close>; a comparison with NaN is false.
\<close>

definition drop_list :: "summary_row list \<Rightarrow> real option \<Rightarrow> int list" where
  "drop_list summary b =
     (case b of
        None \<Rightarrow> []
      | Some x \<Rightarrow> map s_key (filter (\<lambda>s. real (s_count s) < x) summary))"

definition movie_benchmark :: "nf_row list \<Rightarrow> real option" where
  "movie_benchmark df = benchmark (groupby_agg Movie_Id df)"

definition drop_movie_list :: "nf_row list \<Rightarrow> int list" where
  "drop_movie_list df = drop_list (groupby_agg Movie_Id df) (movie_benchmark df)"

definition cust_benchmark :: "nf_row list \<Rightarrow> real option" where
  "cust_benchmark df = benchmark (groupby_agg Cust_Id df)"

definition drop_cust_list :: "nf_row list \<Rightarrow> int list" where
  "drop_cust_list df = drop_list (groupby_agg Cust_Id df) (cust_benchmark df)"

text \<open>
  The trim: both lists are computed from the table before the trim, then the rows of
  the dropped movies and the rows of the dropped customers are removed, in this order.
\<close>

definition trim :: "nf_row list \<Rightarrow> nf_row list" where
  "trim df =
     (let movies = drop_movie_list df;
          custs = drop_cust_list df;
          df1 = filter (\<lambda>r. Movie_Id r \<notin> set movies) df
      in filter (\<lambda>r. Cust_Id r \<notin> set custs) df1)"

text \<open>
  \<^verbatim>\<open>pd.pivot_table(df, values='Rating', index='Cust_Id', columns='Movie_Id')\<close>: as
  \<open>pivot\<close>, but the ratings of one customer for one movie are aggregated by their mean
  (the default \<^verbatim>\<open>aggfunc\<close>), so a repeated pair is not an error.
\<close>

definition pivot_table :: "nf_row list \<Rightarrow> real option frame" where
  "pivot_table df =
     (let custs = sort (remdups (map Cust_Id df));
          movies = sort (remdups (map Movie_Id df))
      in \<lparr>row_labels = custs, col_labels = movies,
          cells = map (\<lambda>c. map (\<lambda>m.
              np_mean (map NRating (filter (\<lambda>r. Cust_Id r = c \<and> Movie_Id r = m) df)))
                movies) custs\<rparr>)"

section \<open>Netflix notebook: the ranking for customer 683421\<close>

text \<open>A row of \<^verbatim>\<open>df_title\<close>; the index \<^verbatim>\<open>Movie_Id\<close> is the field \<open>TMovie_Id\<close>.\<close>

record title_row =
  TMovie_Id :: int
  Year :: "real option"
  Name :: string

text \<open>A row of the printed table: the column \<^verbatim>\<open>Movie_Id\<close> is dropped before sorting.\<close>

record ranked_row =
  RYear :: "real option"
  RName :: string
  Estimate_Score :: real

text \<open>
  The titles whose movie is not in \<^verbatim>\<open>drop_movie_list\<close> (computed from the table before
  the trim) are scored with \<^verbatim>\<open>svd.predict(683421, x).est\<close>, sorted by the score and
  the first ten are printed. The trained predictor belongs to the Surprise library and
  is the parameter \<open>est\<close>: \<open>est u x\<close> is \<^verbatim>\<open>svd.predict(u, x).est\<close>.
\<close>

definition user_683421 :: "(int \<Rightarrow> int \<Rightarrow> real) \<Rightarrow> title_row list \<Rightarrow> nf_row list \<Rightarrow> ranked_row list" where
  "user_683421 est df_title df =
     (let kept = filter (\<lambda>t. TMovie_Id t \<notin> set (drop_movie_list df)) df_title;
          scored = map (\<lambda>t. \<lparr>RYear = Year t, RName = Name t,
                               Estimate_Score = est 683421 (TMovie_Id t)\<rparr>) kept
      in take 10 (sort_values_desc (\<lambda>r. Some (Estimate_Score r)) scored))"

section \<open>Notions used in the statements\<close>

text \<open>
  The movies of \<^verbatim>\<open>movies_df\<close> that the user has no row for in the ratings table, in
  the order of \<^verbatim>\<open>movies_df\<close>.
\<close>

definition unrated_movies :: "int \<Rightarrow> movie_row list \<Rightarrow> rating_row list \<Rightarrow> movie_row list" where
  "unrated_movies userID movies_df original_ratings_df =
     filter (\<lambda>m. MovieID m \<notin>
                set (map RMovieID (filter (\<lambda>r. UserID r = userID) original_ratings_df)))
       movies_df"

text \<open>
  The predicted rating of a movie for a user: the entry of the user's row of
  \<^verbatim>\<open>preds_df\<close> in the movie's column, NaN when the movie has no column. It is read
  only for users whose row exists.
\<close>

definition predicted :: "preds_frame \<Rightarrow> int \<Rightarrow> movie_row \<Rightarrow> real option" where
  "predicted preds_df userID m =
     map_of (zip (pcolumns preds_df) (prows preds_df ! nat (userID - 1))) (MovieID m)"

text \<open>The order of a descending sort with NaN last: \<open>a\<close> may stand before \<open>b\<close>.\<close>

definition score_ge :: "'k::linorder option \<Rightarrow> 'k option \<Rightarrow> bool" where
  "score_ge a b =
     (case b of
        None \<Rightarrow> True
      | Some y \<Rightarrow> (case a of None \<Rightarrow> False | Some x \<Rightarrow> y \<le> x))"

text \<open>The number of rows of the table whose column \<open>k\<close> holds \<open>v\<close>.\<close>

definition review_count :: "(nf_row \<Rightarrow> int) \<Rightarrow> nf_row list \<Rightarrow> int \<Rightarrow> nat" where
  "review_count k df v = length (filter (\<lambda>r. k r = v) df)"

text \<open>A count is at least a benchmark; no count is at least NaN.\<close>

definition reaches :: "nat \<Rightarrow> real option \<Rightarrow> bool" where
  "reaches c b = (case b of None \<Rightarrow> False | Some x \<Rightarrow> x \<le> real c)"

text \<open>The printed row of a title of the Netflix table.\<close>

definition ranked_row_of :: "(int \<Rightarrow> int \<Rightarrow> real) \<Rightarrow> title_row \<Rightarrow> ranked_row" where
  "ranked_row_of est t =
     \<lparr>RYear = Year t, RName = Name t, Estimate_Score = est 683421 (TMovie_Id t)\<rparr>"

text \<open>The titles whose movie is not in \<^verbatim>\<open>drop_movie_list\<close>.\<close>

definition kept_titles :: "title_row list \<Rightarrow> nf_row list \<Rightarrow> title_row list" where
  "kept_titles df_title df = filter (\<lambda>t. TMovie_Id t \<notin> set (drop_movie_list df)) df_title"


section \<open>Example tables\<close>

definition ex_preds :: preds_frame where
  "ex_preds = \<lparr>pcolumns = [1, 2, 3], prows = [[3, 3, 1], [1, 2, 3]]\<rparr>"

definition movie_A :: movie_row where
  "movie_A = \<lparr>MovieID = 1, Title = ''A'', Genres = ''Drama''\<rparr>"

definition movie_B :: movie_row where
  "movie_B = \<lparr>MovieID = 2, Title = ''B'', Genres = ''Comedy''\<rparr>"

definition movie_C :: movie_row where
  "movie_C = \<lparr>MovieID = 3, Title = ''C'', Genres = ''Drama''\<rparr>"

definition rating_1C :: rating_row where
  "rating_1C = \<lparr>UserID = 1, RMovieID = 3, Rating = 5, Timestamp = 0\<rparr>"

definition rt :: "int \<Rightarrow> int \<Rightarrow> 64 word \<Rightarrow> rating_row" where
  "rt u m r = \<lparr>UserID = u, RMovieID = m, Rating = r, Timestamp = 0\<rparr>"

definition nf :: "int \<Rightarrow> int \<Rightarrow> real \<Rightarrow> nf_row" where
  "nf c m r = \<lparr>Cust_Id = c, NRating = r, Movie_Id = m\<rparr>"

definition ex_df :: "nf_row list" where
  "ex_df = [nf 1 1 2, nf 2 1 4, nf 1 2 3, nf 3 1 1, nf 3 3 1]"

definition dinosaur_planet :: title_row where
  "dinosaur_planet = \<lparr>TMovie_Id = 1, Year = Some 2003, Name = ''Dinosaur Planet''\<rparr>"



section \<open>Sorting, slicing and merging\<close>

lemma insort_key_map: "insort_key k (f x) (map f xs) = map f (insort_key (\<lambda>y. k (f y)) x xs)"
  by (induction xs) simp_all

lemma sort_key_map: "sort_key k (map f xs) = map f (sort_key (\<lambda>y. k (f y)) xs)"
  by (induction xs) (simp_all add: insort_key_map)

lemma insort_key_cong_set:
  "f x = g x \<Longrightarrow> (\<And>y. y \<in> set ys \<Longrightarrow> f y = g y) \<Longrightarrow> insort_key f x ys = insort_key g x ys"
  by (induction ys) simp_all

lemma sort_key_cong_set:
  "(\<And>y. y \<in> set ys \<Longrightarrow> f y = g y) \<Longrightarrow> sort_key f ys = sort_key g ys"
proof (induction ys)
  case Nil
  show ?case by simp
next
  case (Cons a ys)
  then have "sort_key f ys = sort_key g ys" by simp
  moreover have "insort_key f a (sort_key g ys) = insort_key g a (sort_key g ys)"
    by (rule insort_key_cong_set) (simp_all add: Cons.prems)
  ultimately show ?case by simp
qed

text \<open>The positions of the insertion sort, applied to the rows, are the insertion sort of the rows.\<close>

lemma nth_insertion_order:
  "map (\<lambda>i. xs ! i) (sort_key (\<lambda>i. map k xs ! i) [0..<length xs]) = sort_key k xs"
proof -
  have "sort_key (\<lambda>i. map k xs ! i) [0..<length xs] = sort_key (\<lambda>i. k (xs ! i)) [0..<length xs]"
    by (rule sort_key_cong_set) simp
  moreover have "map (\<lambda>i. xs ! i) (sort_key (\<lambda>i. k (xs ! i)) [0..<length xs])
      = sort_key k (map (\<lambda>i. xs ! i) [0..<length xs])"
    by (simp only: sort_key_map)
  ultimately show ?thesis by (simp add: map_nth)
qed

lemma introsort_order_sorts:
  "mset (introsort_order ks) = mset [0..<length ks] \<and>
   sorted (map (\<lambda>i. ks ! i) (introsort_order ks))"
proof -
  define P where "P = (\<lambda>a :: 'a list \<Rightarrow> nat list.
     \<forall>ks. mset (a ks) = mset [0..<length ks] \<and> sorted (map (\<lambda>i. ks ! i) (a ks)))"
  have "P (\<lambda>ks. sort_key (\<lambda>i. ks ! i) [0..<length ks])"
    by (simp add: P_def)
  then have "P (Eps P)" by (rule someI [of P])
  moreover have "introsort_order = Eps P"
    by (simp only: introsort_order_def P_def)
  ultimately have "P introsort_order" by simp
  then show ?thesis by (simp only: P_def)
qed

text \<open>Without equal entries there is one ascending order only.\<close>

lemma introsort_order_distinct:
  assumes "distinct ks"
  shows "introsort_order ks = sort_key (\<lambda>i. ks ! i) [0..<length ks]"
proof -
  let ?a = "introsort_order ks" and ?b = "sort_key (\<lambda>i. ks ! i) [0..<length ks]"
  have ma: "mset ?a = mset [0..<length ks]" and sa: "sorted (map (\<lambda>i. ks ! i) ?a)"
    using introsort_order_sorts [of ks] by simp_all
  have mb: "mset ?b = mset [0..<length ks]" and sb: "sorted (map (\<lambda>i. ks ! i) ?b)"
    by simp_all
  have "set ?a = set [0..<length ks]" using ma by (rule mset_eq_setD)
  moreover have "set ?b = set [0..<length ks]" by simp
  ultimately have sets: "set ?a \<union> set ?b = {0..<length ks}" by simp
  have inj: "inj_on (\<lambda>i. ks ! i) (set ?a \<union> set ?b)"
    unfolding sets using assms by (simp add: inj_on_nth)
  have "mset (map (\<lambda>i. ks ! i) ?a) = mset (map (\<lambda>i. ks ! i) ?b)"
    using ma mb by simp
  then have "sort (map (\<lambda>i. ks ! i) ?b) = map (\<lambda>i. ks ! i) ?a"
    using sa by (rule properties_for_sort)
  moreover have "sort (map (\<lambda>i. ks ! i) ?b) = map (\<lambda>i. ks ! i) ?b"
    using sb by (rule sort_key_id_if_sorted [of "\<lambda>x. x", simplified])
  ultimately have "map (\<lambda>i. ks ! i) ?a = map (\<lambda>i. ks ! i) ?b" by simp
  then show ?thesis using inj by (rule map_inj_on)
qed

lemma introsort_order_code [code]:
  "introsort_order ks =
     (if distinct ks then sort_key (\<lambda>i. ks ! i) [0..<length ks]
      else Code.abort (STR ''order of equal keys on a long array'') (\<lambda>_. introsort_order ks))"
  by (simp add: introsort_order_distinct)

lemma argsort_sorts:
  "mset (argsort ks) = mset [0..<length ks] \<and> sorted (map (\<lambda>i. ks ! i) (argsort ks))"
  using introsort_order_sorts [of ks] by (simp add: argsort_def)

lemma argsort_in_range: "i \<in> set (argsort ks) \<Longrightarrow> i < length ks"
proof -
  assume "i \<in> set (argsort ks)"
  then have "i \<in># mset (argsort ks)" by simp
  then have "i \<in># mset [0..<length ks]" by (simp only: argsort_sorts)
  then show ?thesis by simp
qed

text \<open>Rows in the order of \<open>argsort\<close> of their keys.\<close>

lemma mset_take_argsort: "mset (map (\<lambda>i. xs ! i) (argsort (map k xs))) = mset xs"
proof -
  have "mset (map (\<lambda>i. xs ! i) (argsort (map k xs))) = image_mset (\<lambda>i. xs ! i) (mset (argsort (map k xs)))"
    by simp
  also have "\<dots> = image_mset (\<lambda>i. xs ! i) (mset [0..<length xs])"
    using argsort_sorts [of "map k xs"] by simp
  also have "\<dots> = mset (map (\<lambda>i. xs ! i) [0..<length xs])" by simp
  also have "\<dots> = mset xs" by (simp only: map_nth)
  finally show ?thesis .
qed

lemma sorted_take_argsort: "sorted (map k (map (\<lambda>i. xs ! i) (argsort (map k xs))))"
proof -
  have e1: "map (\<lambda>i. k (xs ! i)) (argsort (map k xs)) = map (\<lambda>i. map k xs ! i) (argsort (map k xs))"
  proof (rule map_cong [OF refl])
    fix i assume "i \<in> set (argsort (map k xs))"
    then have "i < length xs" using argsort_in_range [of i "map k xs"] by simp
    then show "k (xs ! i) = map k xs ! i" by simp
  qed
  have e2: "map k (map (\<lambda>i. xs ! i) (argsort (map k xs))) = map (\<lambda>i. k (xs ! i)) (argsort (map k xs))"
    by simp
  have s: "sorted (map (\<lambda>i. map k xs ! i) (argsort (map k xs)))"
    using argsort_sorts [of "map k xs"] by simp
  show ?thesis unfolding e2 e1 by (rule s)
qed

lemma take_argsort_map:
  "map (\<lambda>i. map f xs ! i) (argsort (map k (map f xs)))
     = map f (map (\<lambda>i. xs ! i) (argsort (map (\<lambda>y. k (f y)) xs)))"
proof -
  have eq: "map k (map f xs) = map (\<lambda>y. k (f y)) xs" by simp
  show ?thesis
    unfolding eq using argsort_in_range [of _ "map (\<lambda>y. k (f y)) xs"] by simp
qed

lemma take_argsort_short:
  "length xs \<le> 16 \<Longrightarrow> map (\<lambda>i. xs ! i) (argsort (map k xs)) = sort_key k xs"
  using nth_insertion_order [of xs k] by (simp add: argsort_def)

lemma sort_values_desc_short:
  "length (filter (\<lambda>r. col r \<noteq> None) df) \<le> 16 \<Longrightarrow>
   sort_values_desc col df
     = rev (sort_key (\<lambda>r. the (col r)) (rev (filter (\<lambda>r. col r \<noteq> None) df)))
       @ filter (\<lambda>r. col r = None) df"
  by (simp only: sort_values_desc_def Let_def take_argsort_short length_rev)

lemma set_sort_values_desc: "set (sort_values_desc col df) = set df"
proof -
  have "set (map (\<lambda>i. rev (filter (\<lambda>r. col r \<noteq> None) df) ! i)
           (argsort (map (\<lambda>r. the (col r)) (rev (filter (\<lambda>r. col r \<noteq> None) df)))))
        = set (rev (filter (\<lambda>r. col r \<noteq> None) df))"
    by (rule mset_eq_setD) (rule mset_take_argsort)
  then show ?thesis
    by (auto simp: sort_values_desc_def Let_def simp del: set_map)
qed

lemma mset_sort_values_desc: "mset (sort_values_desc col df) = mset df"
proof -
  have "mset (sort_values_desc col df)
      = mset (filter (\<lambda>r. col r \<noteq> None) df) + mset (filter (\<lambda>r. col r = None) df)"
    unfolding sort_values_desc_def Let_def
    by (simp only: mset_append mset_rev mset_take_argsort)
  then show ?thesis by simp
qed

lemma length_sort_values_desc: "length (sort_values_desc col df) = length df"
  using mset_sort_values_desc [of col df] by (metis size_mset)

lemma sort_values_desc_map:
  "sort_values_desc col (map f xs) = map f (sort_values_desc (\<lambda>y. col (f y)) xs)"
proof -
  let ?g = "rev (filter (\<lambda>y. col (f y) \<noteq> None) xs)"
  have g: "rev (filter (\<lambda>r. col r \<noteq> None) (map f xs)) = map f ?g"
    by (simp add: filter_map comp_def rev_map)
  have b: "filter (\<lambda>r. col r = None) (map f xs) = map f (filter (\<lambda>y. col (f y) = None) xs)"
    by (simp add: filter_map comp_def)
  show ?thesis
    unfolding sort_values_desc_def Let_def g b
    by (simp only: take_argsort_map [of f ?g "\<lambda>r. the (col r)"] rev_map map_append)
qed

lemma sorted_desc_good:
  "sorted_wrt (\<lambda>a b. k b \<le> k a) (rev (map (\<lambda>i. xs ! i) (argsort (map k xs))))"
proof -
  have "sorted (map k (map (\<lambda>i. xs ! i) (argsort (map k xs))))" by (rule sorted_take_argsort)
  then have "sorted_wrt (\<lambda>a b. k a \<le> k b) (map (\<lambda>i. xs ! i) (argsort (map k xs)))"
    by (simp only: sorted_map)
  then show ?thesis
    by (simp only: sorted_wrt_rev)
qed

lemma set_iloc_upto: "set (iloc_upto n xs) \<subseteq> set xs"
  by (auto simp: iloc_upto_def dest: in_set_takeD)

lemma iloc_upto_nonneg: "0 \<le> n \<Longrightarrow> iloc_upto n xs = take (nat n) xs"
  by (simp add: iloc_upto_def)

lemma fst_merge_left: "fst ` set (merge_left kl kr left right) = set left"
proof (induction left)
  case Nil
  show ?case by (simp add: merge_left_def)
next
  case (Cons l left)
  have one: "fst ` set (case filter (\<lambda>r. kr r = kl l) right of
                         [] \<Rightarrow> [(l, None)]
                       | ms \<Rightarrow> map (\<lambda>r. (l, Some r)) ms) = {l}"
    by (cases "filter (\<lambda>r. kr r = kl l) right") (auto simp: image_iff)
  from Cons one show ?case
    by (simp add: merge_left_def image_Un)
qed

lemma filter_key_distinct:
  "distinct (map kr right) \<Longrightarrow>
   filter (\<lambda>r. kr r = k) right = (case find (\<lambda>r. kr r = k) right of None \<Rightarrow> [] | Some x \<Rightarrow> [x])"
proof (induction right)
  case Nil
  show ?case by simp
next
  case (Cons a right)
  show ?case
  proof (cases "kr a = k")
    case True
    with Cons.prems have "filter (\<lambda>r. kr r = k) right = []"
      by (auto simp: filter_empty_conv image_iff)
    with True show ?thesis by simp
  next
    case False
    with Cons show ?thesis by simp
  qed
qed

lemma merge_left_distinct:
  assumes "distinct (map kr right)"
  shows "merge_left kl kr left right = map (\<lambda>l. (l, find (\<lambda>r. kr r = kl l) right)) left"
proof -
  have "(case filter (\<lambda>r. kr r = kl l) right of [] \<Rightarrow> [(l, None)] | ms \<Rightarrow> map (\<lambda>r. (l, Some r)) ms)
        = [(l, find (\<lambda>r. kr r = kl l) right)]" for l
    by (simp add: filter_key_distinct [OF assms] split: option.splits)
  then show ?thesis
    by (induction left) (simp_all add: merge_left_def)
qed

lemma find_map_of: "map_option snd (find (\<lambda>r. fst r = k) xs) = map_of xs k"
  by (induction xs) auto

lemma map_of_sort_values_desc:
  assumes "distinct (map fst xs)"
  shows "map_of (sort_values_desc col xs) = map_of xs"
proof -
  have "mset (map fst (sort_values_desc col xs)) = mset (map fst xs)"
    by (simp add: mset_sort_values_desc)
  with assms have "distinct (map fst (sort_values_desc col xs))"
    by (metis mset_eq_imp_distinct_iff)
  with assms show ?thesis
    by (simp add: map_of_inject_set set_sort_values_desc)
qed

lemma sorted_sort_values_desc:
  "sorted_wrt (\<lambda>a b. score_ge (col a) (col b)) (sort_values_desc col df)"
proof -
  define non_nans where "non_nans = rev (filter (\<lambda>r. col r \<noteq> None) df)"
  define good where "good = rev (map (\<lambda>i. non_nans ! i)
      (argsort (map (\<lambda>r. the (col r)) non_nans)))"
  define bad where "bad = filter (\<lambda>r. col r = None) df"
  have "mset good = mset non_nans"
    unfolding good_def by (simp only: mset_rev mset_take_argsort)
  then have "set good = set non_nans" by (rule mset_eq_setD)
  then have g: "col r \<noteq> None" if "r \<in> set good" for r
    using that by (simp add: non_nans_def)
  have b: "col r = None" if "r \<in> set bad" for r
    using that by (simp add: bad_def)
  have "sorted_wrt (\<lambda>a b. the (col b) \<le> the (col a)) good"
    unfolding good_def by (rule sorted_desc_good)
  then have 1: "sorted_wrt (\<lambda>a b. score_ge (col a) (col b)) good"
  proof (rule sorted_wrt_mono_rel [rotated])
    fix x y assume "x \<in> set good" "y \<in> set good" "the (col y) \<le> the (col x)"
    then show "score_ge (col x) (col y)"
      using g [of x] g [of y] by (auto simp: score_ge_def)
  qed
  have "sorted_wrt (\<lambda>a b. True) bad" by simp
  then have 2: "sorted_wrt (\<lambda>a b. score_ge (col a) (col b)) bad"
  proof (rule sorted_wrt_mono_rel [rotated])
    fix x y assume "y \<in> set bad"
    then show "score_ge (col x) (col y)"
      using b [of y] by (simp add: score_ge_def)
  qed
  have 3: "score_ge (col x) (col y)" if "x \<in> set good" "y \<in> set bad" for x y
    using b [OF that(2)] by (simp add: score_ge_def)
  have "sorted_wrt (\<lambda>a b. score_ge (col a) (col b)) (good @ bad)"
    using 1 2 3 by (simp add: sorted_wrt_append)
  then show ?thesis
    by (simp only: sort_values_desc_def Let_def good_def non_nans_def bad_def)
qed

section \<open>recommend_movies: when it returns and what it computes\<close>

lemma iloc_Inr_iff:
  "iloc xs i = Inr (l, x) \<longleftrightarrow>
     (0 \<le> i \<and> i < int (length xs) \<and> l = i \<and> x = xs ! nat i) \<or>
     (i < 0 \<and> 0 \<le> int (length xs) + i \<and> l = int (length xs) + i \<and> x = xs ! nat (int (length xs) + i))"
  by (auto simp: iloc_def Let_def)

lemma user_full_ids:
  "set (map (\<lambda>j. RMovieID (fst j))
      (sort_values_desc c (merge_left RMovieID MovieID user_data movies_df)))
   = RMovieID ` set user_data"
proof -
  have "set (map (\<lambda>j. RMovieID (fst j)) (sort_values_desc c (merge_left RMovieID MovieID user_data movies_df)))
        = RMovieID ` fst ` set (merge_left RMovieID MovieID user_data movies_df)"
    by (simp add: set_sort_values_desc image_image)
  then show ?thesis by (simp only: fst_merge_left)
qed

lemma unrated_movies_user_full:
  "filter (\<lambda>m. MovieID m \<notin> set (map (\<lambda>j. RMovieID (fst j))
      (sort_values_desc c (merge_left RMovieID MovieID
          (filter (\<lambda>r. UserID r = userID) ratings) movies_df)))) movies_df
   = unrated_movies userID movies_df ratings"
  unfolding user_full_ids unrated_movies_def by simp

lemma recommend_movies_unfold:
  assumes "recommend_movies preds_df predictions_df userID movies_df ratings n = Inr (user_full, recs)"
  shows "1 \<le> userID \<and> userID \<le> int (length (prows preds_df)) \<and>
    recs = map fst (iloc_upto n (sort_values_desc (\<lambda>j. map_option snd (snd j))
        (merge_left MovieID fst (unrated_movies userID movies_df ratings)
           (sort_values_desc (\<lambda>c. Some (snd c))
              (zip (pcolumns preds_df) (prows preds_df ! nat (userID - 1)))))))"
proof (cases "iloc (prows preds_df) (userID - 1)")
  case (Inl e)
  with assms show ?thesis by (simp add: recommend_movies_def)
next
  case (Inr lr)
  obtain label row where lr: "lr = (label, row)" by (cases lr)
  from assms Inr lr have eq: "label = userID - 1"
    by (simp add: recommend_movies_def Let_def split: if_splits)
  from Inr lr eq have pos: "1 \<le> userID" "userID \<le> int (length (prows preds_df))"
    and row: "row = prows preds_df ! nat (userID - 1)"
    by (auto simp: iloc_Inr_iff)
  from assms Inr lr eq have "recs = map fst (iloc_upto n (sort_values_desc (\<lambda>j. map_option snd (snd j))
        (merge_left MovieID fst (unrated_movies userID movies_df ratings)
           (sort_values_desc (\<lambda>c. Some (snd c)) (zip (pcolumns preds_df) row)))))"
    by (simp add: recommend_movies_def Let_def unrated_movies_user_full del: set_map)
  with pos row show ?thesis by simp
qed

lemma recommend_movies_returns:
  assumes "1 \<le> userID" "userID \<le> int (length (prows preds_df))"
  shows "\<exists>res. recommend_movies preds_df predictions_df userID movies_df ratings n = Inr res"
proof -
  from assms have "iloc (prows preds_df) (userID - 1) = Inr (userID - 1, prows preds_df ! nat (userID - 1))"
    by (simp add: iloc_Inr_iff)
  then show ?thesis
    by (simp add: recommend_movies_def Let_def)
qed

lemmas ex_defs = ex_preds_def movie_A_def movie_B_def movie_C_def rating_1C_def
lemmas rm_defs = recommend_movies_def iloc_def iloc_upto_def sort_values_desc_short merge_left_def Let_def

lemma ex_run:
  "recommend_movies ex_preds ex_preds 1 [movie_B, movie_A, movie_C] [rating_1C] 2
     = Inr ([(rating_1C, Some movie_C)], [movie_B, movie_A])"
  by (simp add: rm_defs ex_defs)

lemma ex_run_neg:
  "recommend_movies ex_preds ex_preds 1 [movie_B, movie_A, movie_C] [rating_1C] (- 1)
     = Inr ([(rating_1C, Some movie_C)], [movie_B])"
  by (simp add: rm_defs ex_defs)

lemma ex_run_all:
  "recommend_movies ex_preds ex_preds 1 [movie_B, movie_A, movie_C] [rating_1C] 5
     = Inr ([(rating_1C, Some movie_C)], [movie_B, movie_A])"
  by (simp add: rm_defs ex_defs)

lemma predicted_sorted:
  assumes "distinct (pcolumns preds_df)"
  shows "map_option snd (find (\<lambda>r. fst r = k)
           (sort_values_desc c (zip (pcolumns preds_df) row)))
         = map_of (zip (pcolumns preds_df) row) k"
proof -
  have "distinct (map fst (zip (pcolumns preds_df) row))"
    using assms by (simp add: map_fst_zip_take)
  then show ?thesis
    by (simp add: find_map_of map_of_sort_values_desc)
qed

lemma distinct_sorted_predictions:
  assumes "distinct (pcolumns preds_df)"
  shows "distinct (map fst (sort_values_desc c (zip (pcolumns preds_df) row)))"
proof -
  have "distinct (map fst (zip (pcolumns preds_df) row))"
    using assms by (simp add: map_fst_zip_take)
  moreover have "mset (map fst (sort_values_desc c (zip (pcolumns preds_df) row)))
      = mset (map fst (zip (pcolumns preds_df) row))"
    by (simp add: mset_sort_values_desc)
  ultimately show ?thesis
    by (metis mset_eq_imp_distinct_iff)
qed

lemma recommend_movies_distinct:
  assumes nn: "0 \<le> n"
    and d: "distinct (pcolumns preds_df)"
    and run: "recommend_movies preds_df predictions_df userID movies_df ratings n = Inr (user_full, recs)"
  shows "recs = take (nat n) (sort_values_desc (predicted preds_df userID)
                   (unrated_movies userID movies_df ratings))"
proof -
  define sp where "sp = sort_values_desc (\<lambda>c. Some (snd c))
              (zip (pcolumns preds_df) (prows preds_df ! nat (userID - 1)))"
  define un where "un = unrated_movies userID movies_df ratings"
  define f where "f = (\<lambda>l::movie_row. (l, find (\<lambda>r. fst r = MovieID l) sp))"
  have recs: "recs = map fst (iloc_upto n (sort_values_desc (\<lambda>j. map_option snd (snd j))
        (merge_left MovieID fst un sp)))"
    using recommend_movies_unfold [OF run] by (simp add: sp_def un_def)
  have "distinct (map fst sp)"
    unfolding sp_def by (rule distinct_sorted_predictions [OF d])
  then have m: "merge_left MovieID fst un sp = map f un"
    unfolding f_def by (rule merge_left_distinct)
  have k: "(\<lambda>y. map_option snd (snd (f y))) = predicted preds_df userID"
    by (rule ext) (simp add: f_def sp_def predicted_def predicted_sorted [OF d])
  have "sort_values_desc (\<lambda>j. map_option snd (snd j)) (map f un)
        = map f (sort_values_desc (predicted preds_df userID) un)"
    by (simp only: sort_values_desc_map k)
  with recs m nn have "recs = map fst (map f (take (nat n) (sort_values_desc (predicted preds_df userID) un)))"
    by (simp add: iloc_upto_nonneg take_map)
  also have "\<dots> = take (nat n) (sort_values_desc (predicted preds_df userID) un)"
    by (simp add: f_def comp_def)
  finally show ?thesis by (simp only: un_def)
qed

lemma ex_run_two:
  "recommend_movies ex_preds ex_preds 2 [movie_B, movie_A, movie_C] [rating_1C] 2
     = Inr ([], [movie_C, movie_B])"
  by (simp add: rm_defs ex_defs)

section \<open>The ranking of the Netflix notebook\<close>

lemma user_683421_eq:
  "user_683421 est df_title df
     = take 10 (sort_values_desc (\<lambda>r. Some (Estimate_Score r))
                  (map (ranked_row_of est) (kept_titles df_title df)))"
proof -
  have "ranked_row_of est = (\<lambda>t. \<lparr>RYear = Year t, RName = Name t,
                               Estimate_Score = est 683421 (TMovie_Id t)\<rparr>)"
    by (rule ext) (simp add: ranked_row_of_def)
  then show ?thesis
    by (simp add: user_683421_def kept_titles_def Let_def)
qed

lemma user_683421_sorted:
  "sorted_wrt (\<lambda>a b. Estimate_Score b \<le> Estimate_Score a) (user_683421 est df_title df)"
proof -
  let ?all = "sort_values_desc (\<lambda>r. Some (Estimate_Score r))
                  (map (ranked_row_of est) (kept_titles df_title df))"
  have "sorted_wrt (\<lambda>a b. score_ge (Some (Estimate_Score a)) (Some (Estimate_Score b))) ?all"
    by (rule sorted_sort_values_desc)
  then have "sorted_wrt (\<lambda>a b. Estimate_Score b \<le> Estimate_Score a) ?all"
    by (simp add: score_ge_def)
  then show ?thesis
    unfolding user_683421_eq by (rule sorted_wrt_take)
qed

lemma user_683421_subset:
  "set (user_683421 est df_title df) \<subseteq> ranked_row_of est ` set (kept_titles df_title df)"
proof -
  have "set (user_683421 est df_title df)
      \<subseteq> set (sort_values_desc (\<lambda>r. Some (Estimate_Score r))
                  (map (ranked_row_of est) (kept_titles df_title df)))"
    unfolding user_683421_eq by (rule set_take_subset)
  then show ?thesis by (simp add: set_sort_values_desc)
qed

lemma user_683421_all:
  assumes "length (kept_titles df_title df) \<le> 10"
  shows "mset (user_683421 est df_title df) = mset (map (ranked_row_of est) (kept_titles df_title df))"
  using assms by (simp add: user_683421_eq length_sort_values_desc mset_sort_values_desc)

lemma ex_ranking:
  "user_683421 (\<lambda>u x. 5) [dinosaur_planet] [nf 683421 1 5]
     = [\<lparr>RYear = Some 2003, RName = ''Dinosaur Planet'', Estimate_Score = 5\<rparr>]"
  by (simp add: user_683421_def drop_movie_list_def movie_benchmark_def benchmark_def
      drop_list_def groupby_agg_def quantile_def py_round_def np_mean_def nf_def
      dinosaur_planet_def sort_values_desc_short Let_def)

section \<open>Claims about the recommendations\<close>

lemma recommend_movies_excludes_rated:
  assumes "recommend_movies preds_df predictions_df userID movies_df original_ratings_df n
             = Inr (user_full, recs)"
  shows "MovieID ` set recs \<inter>
         RMovieID ` set (filter (\<lambda>r. UserID r = userID) original_ratings_df) = {}"
proof -
  let ?un = "unrated_movies userID movies_df original_ratings_df"
  define merged where "merged = merge_left MovieID fst ?un
        (sort_values_desc (\<lambda>c. Some (snd c))
              (zip (pcolumns preds_df) (prows preds_df ! nat (userID - 1))))"
  define k where "k = (\<lambda>j :: movie_row \<times> (int \<times> real) option. map_option snd (snd j))"
  have recs: "recs = map fst (iloc_upto n (sort_values_desc k merged))"
    using recommend_movies_unfold [OF assms] by (simp add: merged_def k_def)
  have "set recs \<subseteq> fst ` set merged"
    using set_iloc_upto [of n "sort_values_desc k merged"]
    by (auto simp: recs set_sort_values_desc)
  also have "\<dots> = set ?un"
    by (simp only: merged_def fst_merge_left)
  finally have "set recs \<subseteq> set ?un" .
  then show ?thesis
    by (auto simp: unrated_movies_def)
qed

text \<open>
  C1, as stated, fails in the Netflix notebook: customer 683421 has rated movie 1, whose
  title is Dinosaur Planet, the movie is not in \<^verbatim>\<open>drop_movie_list\<close>, and its row is in
  the ranking printed for the customer.
\<close>

theorem user_683421_rated_counterexample:
  "user_683421 (\<lambda>u x. 5) [dinosaur_planet] [nf 683421 1 5]
     = [\<lparr>RYear = Some 2003, RName = ''Dinosaur Planet'', Estimate_Score = 5\<rparr>] \<and>
   Cust_Id (nf 683421 1 5) = 683421 \<and>
   Movie_Id (nf 683421 1 5) = TMovie_Id dinosaur_planet"
  using ex_ranking by (simp add: nf_def dinosaur_planet_def)

text \<open>
  C1, amended. Whenever \<open>recommend_movies\<close> of the MovieLens notebook returns, no movie
  of the returned recommendations has an id that occurs in a row of the ratings table
  for the queried user. The ranking of the Netflix notebook excludes the movies of
  \<^verbatim>\<open>drop_movie_list\<close> only: every printed row belongs to a title outside that list, and
  when at most ten titles are outside it, all of them are printed, rated by the
  customer or not.
\<close>

theorem rated_movies_excluded:
  "(recommend_movies preds_df predictions_df userID movies_df original_ratings_df n
      = Inr (user_full, recs) \<longrightarrow>
    MovieID ` set recs \<inter>
      RMovieID ` set (filter (\<lambda>r. UserID r = userID) original_ratings_df) = {}) \<and>
   set (user_683421 est df_title df) \<subseteq> ranked_row_of est ` set (kept_titles df_title df) \<and>
   (length (kept_titles df_title df) \<le> 10 \<longrightarrow>
      mset (user_683421 est df_title df)
        = mset (map (ranked_row_of est) (kept_titles df_title df)))"
  using recommend_movies_excludes_rated [of preds_df predictions_df userID movies_df
      original_ratings_df n user_full recs]
    user_683421_subset [of est df_title df] user_683421_all [of df_title df est]
  by blast

text \<open>
  An instance: user 1 has rated movie 3 and the two recommendations are movies 2 and 1;
  the one title of the Netflix table is printed.
\<close>

theorem rated_movies_excluded_witness:
  "recommend_movies ex_preds ex_preds 1 [movie_B, movie_A, movie_C] [rating_1C] 2
     = Inr ([(rating_1C, Some movie_C)], [movie_B, movie_A]) \<and>
   MovieID ` set [movie_B, movie_A] \<inter>
     RMovieID ` set (filter (\<lambda>r. UserID r = 1) [rating_1C]) = {} \<and>
   length (kept_titles [dinosaur_planet] [nf 683421 1 5]) \<le> 10 \<and>
   mset (user_683421 (\<lambda>u x. 5) [dinosaur_planet] [nf 683421 1 5])
     = mset (map (ranked_row_of (\<lambda>u x. 5)) (kept_titles [dinosaur_planet] [nf 683421 1 5]))"
proof -
  have l: "length (kept_titles [dinosaur_planet] [nf 683421 1 5]) \<le> 10"
    by (simp add: kept_titles_def)
  from rated_movies_excluded [where preds_df = ex_preds and predictions_df = ex_preds
      and userID = 1 and movies_df = "[movie_B, movie_A, movie_C]"
      and original_ratings_df = "[rating_1C]" and n = 2
      and user_full = "[(rating_1C, Some movie_C)]" and recs = "[movie_B, movie_A]"
      and est = "\<lambda>u x. 5" and df_title = "[dinosaur_planet]" and df = "[nf 683421 1 5]"]
    ex_run l
  show ?thesis by simp
qed

text \<open>
  C3, as stated, fails: movies 2 and 1 have the same predicted rating for user 1, and
  the recommendations list movie 2 before movie 1, the order of their rows in
  \<^verbatim>\<open>movies_df\<close>, not the ascending order of their ids.
\<close>

theorem recommend_movies_tie_counterexample:
  "recommend_movies ex_preds ex_preds 1 [movie_B, movie_A] [] 2 = Inr ([], [movie_B, movie_A]) \<and>
   predicted ex_preds 1 movie_B = predicted ex_preds 1 movie_A \<and>
   MovieID movie_A < MovieID movie_B"
  by (simp add: rm_defs ex_defs predicted_def)

text \<open>
  C3, amended. For a count \<open>n \<ge> 0\<close> and a prediction table with one column per movie
  id, the recommendations of \<open>recommend_movies\<close> are the first \<open>n\<close> of the user's unrated
  movies as \<^verbatim>\<open>sort_values\<close> orders them: a permutation of the unrated movies in
  descending order of predicted rating, with the movies that have no prediction last.
  The ranking of the Netflix notebook is the first ten of the scored titles in
  descending order of the estimate. In both, equal scores are in the order the library
  sort leaves them; movie ids are no key of the sort.
\<close>

theorem recommend_movies_ranking:
  assumes "0 \<le> n" and "distinct (pcolumns preds_df)"
    and "recommend_movies preds_df predictions_df userID movies_df original_ratings_df n
           = Inr (user_full, recs)"
  shows "recs = take (nat n) (sort_values_desc (predicted preds_df userID)
                   (unrated_movies userID movies_df original_ratings_df)) \<and>
         mset (sort_values_desc (predicted preds_df userID)
                   (unrated_movies userID movies_df original_ratings_df))
           = mset (unrated_movies userID movies_df original_ratings_df) \<and>
         sorted_wrt (\<lambda>a b. score_ge (predicted preds_df userID a) (predicted preds_df userID b))
           (sort_values_desc (predicted preds_df userID)
                   (unrated_movies userID movies_df original_ratings_df)) \<and>
         user_683421 est df_title df
           = take 10 (sort_values_desc (\<lambda>r. Some (Estimate_Score r))
                        (map (ranked_row_of est) (kept_titles df_title df))) \<and>
         mset (sort_values_desc (\<lambda>r. Some (Estimate_Score r))
                        (map (ranked_row_of est) (kept_titles df_title df)))
           = mset (map (ranked_row_of est) (kept_titles df_title df)) \<and>
         sorted_wrt (\<lambda>a b. Estimate_Score b \<le> Estimate_Score a) (user_683421 est df_title df)"
  using recommend_movies_distinct [OF assms] user_683421_eq [of est df_title df]
    user_683421_sorted [of est df_title df]
  by (simp only: mset_sort_values_desc sorted_sort_values_desc simp_thms)

text \<open>
  An instance without ties: user 2 has rated nothing, the predictions for movies 1, 2
  and 3 are 1, 2 and 3, and the first two of the three unrated movies are movies 3 and 2.
\<close>

theorem recommend_movies_ranking_witness:
  "(0::int) \<le> 2 \<and> distinct (pcolumns ex_preds) \<and>
   recommend_movies ex_preds ex_preds 2 [movie_B, movie_A, movie_C] [rating_1C] 2
     = Inr ([], [movie_C, movie_B]) \<and>
   unrated_movies 2 [movie_B, movie_A, movie_C] [rating_1C] = [movie_B, movie_A, movie_C] \<and>
   [movie_C, movie_B] = take (nat 2) (sort_values_desc (predicted ex_preds 2)
                   (unrated_movies 2 [movie_B, movie_A, movie_C] [rating_1C])) \<and>
   sorted_wrt (\<lambda>a b. Estimate_Score b \<le> Estimate_Score a)
     (user_683421 (\<lambda>u x. 5) [dinosaur_planet] [nf 683421 1 5])"
proof -
  have n: "(0::int) \<le> 2" by simp
  have d: "distinct (pcolumns ex_preds)" by (simp add: ex_preds_def)
  have u: "unrated_movies 2 [movie_B, movie_A, movie_C] [rating_1C] = [movie_B, movie_A, movie_C]"
    by (simp add: unrated_movies_def ex_defs)
  note th = recommend_movies_ranking [OF n d ex_run_two, where est = "\<lambda>u x. 5"
      and df_title = "[dinosaur_planet]" and df = "[nf 683421 1 5]"]
  from th have a: "[movie_C, movie_B] = take (nat 2) (sort_values_desc (predicted ex_preds 2)
                   (unrated_movies 2 [movie_B, movie_A, movie_C] [rating_1C]))"
    by (rule conjunct1)
  from th have b: "sorted_wrt (\<lambda>a b. Estimate_Score b \<le> Estimate_Score a)
     (user_683421 (\<lambda>u x. 5) [dinosaur_planet] [nf 683421 1 5])"
    by blast
  show ?thesis by (intro conjI n d ex_run_two u a b)
qed

text \<open>
  C10, as stated, fails for a negative count: with \<open>num_recommendations = -1\<close> and two
  unrated movies the slice drops the last row and returns one row, which is more than
  \<open>-1\<close> rows.
\<close>

theorem recommend_movies_negative_counterexample:
  "recommend_movies ex_preds ex_preds 1 [movie_B, movie_A, movie_C] [rating_1C] (- 1)
     = Inr ([(rating_1C, Some movie_C)], [movie_B]) \<and>
   \<not> int (length [movie_B]) \<le> - 1"
  by (simp add: rm_defs ex_defs)

text \<open>
  C10, amended. For every count \<open>num_recommendations \<ge> 0\<close>, the returned
  recommendations have at most \<open>num_recommendations\<close> rows; with one prediction column
  per movie id they have exactly the smaller of the count and the number of unrated
  movies, and when there are no more unrated movies than the count, all of them are
  returned.
\<close>

theorem recommend_movies_at_most:
  assumes nn: "0 \<le> n"
    and run: "recommend_movies preds_df predictions_df userID movies_df original_ratings_df n
           = Inr (user_full, recs)"
  shows "length recs \<le> nat n \<and>
         (distinct (pcolumns preds_df) \<longrightarrow>
            length recs = min (nat n) (length (unrated_movies userID movies_df original_ratings_df)) \<and>
            (length (unrated_movies userID movies_df original_ratings_df) \<le> nat n \<longrightarrow>
               mset recs = mset (unrated_movies userID movies_df original_ratings_df)))"
proof -
  have 1: "length recs \<le> nat n"
    using recommend_movies_unfold [OF run] nn by (simp add: iloc_upto_nonneg)
  have 2: "length recs = min (nat n) (length (unrated_movies userID movies_df original_ratings_df))"
    if "distinct (pcolumns preds_df)"
    by (simp add: recommend_movies_distinct [OF nn that run] length_sort_values_desc min.commute)
  have 3: "mset recs = mset (unrated_movies userID movies_df original_ratings_df)"
    if "distinct (pcolumns preds_df)"
      "length (unrated_movies userID movies_df original_ratings_df) \<le> nat n"
    using that(2)
    by (simp add: recommend_movies_distinct [OF nn that(1) run] length_sort_values_desc
          mset_sort_values_desc)
  from 1 2 3 show ?thesis by blast
qed

theorem recommend_movies_at_most_witness:
  "(0::int) \<le> 5 \<and>
   recommend_movies ex_preds ex_preds 1 [movie_B, movie_A, movie_C] [rating_1C] 5
     = Inr ([(rating_1C, Some movie_C)], [movie_B, movie_A]) \<and>
   length [movie_B, movie_A] \<le> nat 5 \<and>
   distinct (pcolumns ex_preds) \<and>
   length (unrated_movies 1 [movie_B, movie_A, movie_C] [rating_1C]) \<le> nat 5 \<and>
   mset [movie_B, movie_A] = mset (unrated_movies 1 [movie_B, movie_A, movie_C] [rating_1C])"
proof -
  have n: "(0::int) \<le> 5" by simp
  have d: "distinct (pcolumns ex_preds)" by (simp add: ex_preds_def)
  have l: "length (unrated_movies 1 [movie_B, movie_A, movie_C] [rating_1C]) \<le> nat 5"
    by (simp add: unrated_movies_def ex_defs)
  from recommend_movies_at_most [OF n ex_run_all] n d l ex_run_all show ?thesis by simp
qed

section \<open>The ratings matrix and the loading of the ratings\<close>

lemma loc_generated:
  "loc \<lparr>row_labels = us, col_labels = ms, cells = map (\<lambda>u. map (f u) ms) us\<rparr> r c
     = (if r \<in> set us \<and> c \<in> set ms then Inr (f r c) else Inl KeyError)"
  by (simp add: loc_def map_of_zip_map)

lemma find_distinct_key:
  assumes "distinct (map key rs)" "x \<in> set rs"
  shows "find (\<lambda>r. key r = key x) rs = Some x"
  using assms
proof (induction rs)
  case Nil
  then show ?case by simp
next
  case (Cons a rs)
  show ?case
  proof (cases "a = x")
    case True
    then show ?thesis by simp
  next
    case False
    with Cons.prems have x: "x \<in> set rs" and "key a \<notin> key ` set rs" by auto
    then have "key a \<noteq> key x" by blast
    with Cons.IH Cons.prems x show ?thesis by simp
  qed
qed

lemma find_pair:
  assumes "distinct (map (\<lambda>r. (UserID r, RMovieID r)) rs)" "x \<in> set rs"
  shows "find (\<lambda>r. UserID r = UserID x \<and> RMovieID r = RMovieID x) rs = Some x"
  using find_distinct_key [of "\<lambda>r. (UserID r, RMovieID r)" rs x, OF assms] by simp

lemma float64_of_int_exact: "\<bar>k\<bar> \<le> 2 ^ 53 \<Longrightarrow> float64_of_int k = of_int k"
  by (simp add: float64_of_int_def)

lemma float64_of_int_rounds: "float64_of_int (2 ^ 53 + 1) = 2 ^ 53"
  by code_simp

lemma pivot_Inr:
  assumes "distinct (map (\<lambda>r. (UserID r, RMovieID r)) ratings_df)"
  shows "\<exists>g. (g = Int64 \<or> g = (\<lambda>k. Float64 (float64_of_int k))) \<and>
     pivot ratings_df =
     Inr \<lparr>row_labels = sort (remdups (map UserID ratings_df)),
          col_labels = sort (remdups (map RMovieID ratings_df)),
          cells = map (\<lambda>u. map (\<lambda>m.
                     map_option (\<lambda>r. g (sint (Rating r)))
                       (find (\<lambda>r. UserID r = u \<and> RMovieID r = m) ratings_df))
                        (sort (remdups (map RMovieID ratings_df))))
                    (sort (remdups (map UserID ratings_df)))\<rparr>"
proof -
  let ?found = "map (\<lambda>u. map (\<lambda>m.
                        map_option (\<lambda>r. sint (Rating r))
                          (find (\<lambda>r. UserID r = u \<and> RMovieID r = m) ratings_df))
                     (sort (remdups (map RMovieID ratings_df))))
                  (sort (remdups (map UserID ratings_df)))"
  show ?thesis
  proof (cases "None \<in> set (concat ?found)")
    case True
    then have "pivot ratings_df =
     Inr \<lparr>row_labels = sort (remdups (map UserID ratings_df)),
          col_labels = sort (remdups (map RMovieID ratings_df)),
          cells = map (map (map_option (\<lambda>k. Float64 (float64_of_int k)))) ?found\<rparr>"
      using assms by (simp add: pivot_def Let_def)
    then show ?thesis
      by (intro exI [of _ "\<lambda>k. Float64 (float64_of_int k)"])
         (simp add: comp_def option.map_comp)
  next
    case False
    then have "pivot ratings_df =
     Inr \<lparr>row_labels = sort (remdups (map UserID ratings_df)),
          col_labels = sort (remdups (map RMovieID ratings_df)),
          cells = map (map (map_option Int64)) ?found\<rparr>"
      using assms by (simp add: pivot_def Let_def)
    then show ?thesis
      by (intro exI [of _ Int64]) (simp add: comp_def option.map_comp)
  qed
qed

lemma pivot_error_iff:
  "pivot ratings_df = Inl e \<longleftrightarrow>
     e = ValueError \<and> \<not> distinct (map (\<lambda>r. (UserID r, RMovieID r)) ratings_df)"
  by (auto simp: pivot_def Let_def)












section \<open>Claims about the stored ratings\<close>




lemma sum_list_of_int:
  "sum_list (map (\<lambda>x. real_of_int (f x)) xs) = real_of_int (sum_list (map f xs))"
  by (induction xs) simp_all

lemma sum_user_row:
  assumes d: "distinct (map (\<lambda>r. (UserID r, RMovieID r)) rs)"
  shows "sum_list (map (\<lambda>m. case find (\<lambda>r. UserID r = u \<and> RMovieID r = m) rs of
                              None \<Rightarrow> 0 | Some r \<Rightarrow> val r)
             (sort (remdups (map RMovieID rs))))
         = (sum_list (map val (filter (\<lambda>r. UserID r = u) rs)) :: real)"
proof -
  define g where "g = (\<lambda>m. case find (\<lambda>r. UserID r = u \<and> RMovieID r = m) rs of
                              None \<Rightarrow> (0::real) | Some r \<Rightarrow> val r)"
  define Ru where "Ru = {r \<in> set rs. UserID r = u}"
  have drs: "distinct rs" using d by (simp add: distinct_map)
  have inj: "inj_on RMovieID Ru"
  proof (rule inj_onI)
    fix a b assume "a \<in> Ru" "b \<in> Ru" "RMovieID a = RMovieID b"
    then have "a \<in> set rs" "b \<in> set rs" "(UserID a, RMovieID a) = (UserID b, RMovieID b)"
      by (simp_all add: Ru_def)
    with d show "a = b"
      by (meson distinct_map inj_onD)
  qed
  have gR: "g (RMovieID r) = val r" if "r \<in> Ru" for r
  proof -
    from that have "r \<in> set rs" "UserID r = u" by (simp_all add: Ru_def)
    with find_pair [OF d, of r] show ?thesis by (simp add: g_def)
  qed
  have g0: "g m = 0" if "m \<notin> RMovieID ` Ru" for m
  proof (cases "find (\<lambda>r. UserID r = u \<and> RMovieID r = m) rs")
    case None
    then show ?thesis by (simp add: g_def)
  next
    case (Some r)
    then have "r \<in> set rs" "UserID r = u" "RMovieID r = m"
      by (auto simp: find_Some_iff)
    with that show ?thesis by (auto simp: Ru_def)
  qed
  have "sum_list (map g (sort (remdups (map RMovieID rs)))) = sum g (RMovieID ` set rs)"
    by (subst sum_list_distinct_conv_sum_set) simp_all
  also have "\<dots> = sum g (RMovieID ` Ru)"
    by (rule sum.mono_neutral_right) (auto simp: Ru_def g0)
  also have "\<dots> = sum val Ru"
    by (simp add: sum.reindex [OF inj] gR)
  also have "\<dots> = sum_list (map val (filter (\<lambda>r. UserID r = u) rs))"
    using drs by (subst sum_list_distinct_conv_sum_set) (simp_all add: Ru_def)
  finally show ?thesis by (simp only: g_def)
qed

text \<open>
  C4, as stated, fails: with the two ratings 5 (user 1, movie 1) and 3 (user 2,
  movie 2) the mean of the observed ratings is 4, and the notebook computes the two
  user means \<open>5 / 2\<close> and \<open>3 / 2\<close>, each over a row in which the unrated movie counts
  as a rating of 0.
\<close>

theorem user_ratings_mean_counterexample:
  "user_ratings_mean [rt 1 1 5, rt 2 2 3] = Inr [Some (5 / 2), Some (3 / 2)] \<and>
   np_mean (map (\<lambda>r. real_of_int (sint (Rating r))) [rt 1 1 5, rt 2 2 3]) = Some 4"
  by (simp add: user_ratings_mean_def R_df_def pivot_def fillna_def np_mean_def rt_def Let_def
      to_float_def float64_of_int_def)

text \<open>
  C4, amended. The bias the notebook computes is one mean per user, in ascending order
  of the user ids: the sum of the user's ratings divided by the number of distinct
  movies of the whole table, so that every movie the user has not rated counts as a
  rating of 0. The ratings are added as doubles, which are the ratings themselves up
  to a magnitude of \<open>2 ^ 53\<close>.
\<close>

theorem user_ratings_mean_per_user:
  assumes "distinct (map (\<lambda>r. (UserID r, RMovieID r)) ratings_df)"
  shows "user_ratings_mean ratings_df =
     Inr (map (\<lambda>u. Some (sum_list (map (\<lambda>r. float64_of_int (sint (Rating r)))
                                      (filter (\<lambda>r. UserID r = u) ratings_df))
                           / real (card (RMovieID ` set ratings_df))))
              (sort (remdups (map UserID ratings_df)))) \<and>
     ((\<forall>r \<in> set ratings_df. \<bar>sint (Rating r)\<bar> \<le> 2 ^ 53) \<longrightarrow>
      user_ratings_mean ratings_df =
        Inr (map (\<lambda>u. Some (real_of_int (sum_list (map (\<lambda>r. sint (Rating r))
                                              (filter (\<lambda>r. UserID r = u) ratings_df)))
                           / real (card (RMovieID ` set ratings_df))))
              (sort (remdups (map UserID ratings_df)))))"
proof -
  let ?movies = "sort (remdups (map RMovieID ratings_df))"
  let ?users = "sort (remdups (map UserID ratings_df))"
  let ?val = "\<lambda>r. float64_of_int (sint (Rating r))"
  have len: "length ?movies = card (RMovieID ` set ratings_df)"
    by (simp add: length_remdups_card_conv)
  from pivot_Inr [OF assms] obtain g where g: "g = Int64 \<or> g = (\<lambda>k. Float64 (float64_of_int k))"
    and p: "pivot ratings_df =
     Inr \<lparr>row_labels = ?users, col_labels = ?movies,
          cells = map (\<lambda>u. map (\<lambda>m.
                     map_option (\<lambda>r. g (sint (Rating r)))
                       (find (\<lambda>r. UserID r = u \<and> RMovieID r = m) ratings_df)) ?movies) ?users\<rparr>"
    by blast
  define fill where "fill = (\<lambda>c :: scalar option. case c of None \<Rightarrow> Float64 0 | Some x \<Rightarrow> x)"
  have cell: "to_float (fill (map_option (\<lambda>r. g (sint (Rating r))) c))
              = (case c of None \<Rightarrow> 0 | Some r \<Rightarrow> ?val r)" for c
    using g by (cases c) (auto simp: to_float_def fill_def)
  have rowmap: "map to_float (map fill
                (map (\<lambda>m. map_option (\<lambda>r. g (sint (Rating r)))
                       (find (\<lambda>r. UserID r = u \<and> RMovieID r = m) ratings_df)) ?movies))
       = map (\<lambda>m. case find (\<lambda>r. UserID r = u \<and> RMovieID r = m) ratings_df of
                              None \<Rightarrow> 0 | Some r \<Rightarrow> ?val r) ?movies" for u
    by (simp only: map_map comp_def cell)
  have row: "np_mean (map to_float (map fill
                (map (\<lambda>m. map_option (\<lambda>r. g (sint (Rating r)))
                       (find (\<lambda>r. UserID r = u \<and> RMovieID r = m) ratings_df)) ?movies)))
       = Some (sum_list (map ?val (filter (\<lambda>r. UserID r = u) ratings_df))
                           / real (card (RMovieID ` set ratings_df)))"
    if "u \<in> set ?users" for u
  proof -
    from that have "ratings_df \<noteq> []" by auto
    then have ne: "?movies \<noteq> []"
      by (metis length_0_conv length_map length_remdups_eq length_sort list.map_disc_iff remdups_eq_nil_iff)
    then have "map (\<lambda>m. case find (\<lambda>r. UserID r = u \<and> RMovieID r = m) ratings_df of
                              None \<Rightarrow> 0 | Some r \<Rightarrow> ?val r) ?movies \<noteq> []"
      by simp
    then show ?thesis
      unfolding rowmap np_mean_def
      by (simp only: if_False sum_user_row [OF assms, of ?val u] length_map len)
  qed
  have "user_ratings_mean ratings_df =
      Inr (map (\<lambda>u. np_mean (map to_float (map fill
                (map (\<lambda>m. map_option (\<lambda>r. g (sint (Rating r)))
                       (find (\<lambda>r. UserID r = u \<and> RMovieID r = m) ratings_df)) ?movies)))) ?users)"
    by (simp add: user_ratings_mean_def R_df_def p fillna_def comp_def fill_def)
  also have "\<dots> = Inr (map (\<lambda>u. Some (sum_list (map ?val (filter (\<lambda>r. UserID r = u) ratings_df))
                           / real (card (RMovieID ` set ratings_df)))) ?users)"
    using row by (simp cong: map_cong)
  finally have general: "user_ratings_mean ratings_df =
     Inr (map (\<lambda>u. Some (sum_list (map ?val (filter (\<lambda>r. UserID r = u) ratings_df))
                           / real (card (RMovieID ` set ratings_df)))) ?users)" .
  have exact: "user_ratings_mean ratings_df =
        Inr (map (\<lambda>u. Some (real_of_int (sum_list (map (\<lambda>r. sint (Rating r))
                                              (filter (\<lambda>r. UserID r = u) ratings_df)))
                           / real (card (RMovieID ` set ratings_df)))) ?users)"
    if small: "\<forall>r \<in> set ratings_df. \<bar>sint (Rating r)\<bar> \<le> 2 ^ 53"
  proof -
    have "sum_list (map ?val (filter (\<lambda>r. UserID r = u) ratings_df))
        = real_of_int (sum_list (map (\<lambda>r. sint (Rating r)) (filter (\<lambda>r. UserID r = u) ratings_df)))"
      for u
    proof -
      have "map ?val (filter (\<lambda>r. UserID r = u) ratings_df)
          = map (\<lambda>r. real_of_int (sint (Rating r))) (filter (\<lambda>r. UserID r = u) ratings_df)"
        using small by (intro map_cong refl float64_of_int_exact) simp
      then show ?thesis by (simp only: sum_list_of_int)
    qed
    with general show ?thesis by simp
  qed
  from general exact show ?thesis by blast
qed

theorem user_ratings_mean_per_user_witness:
  "distinct (map (\<lambda>r. (UserID r, RMovieID r)) [rt 1 1 5, rt 1 2 4, rt 2 3 3]) \<and>
   \<bar>sint (Rating (rt 1 1 5))\<bar> \<le> 2 ^ 53 \<and>
   \<bar>sint (Rating (rt 1 2 4))\<bar> \<le> 2 ^ 53 \<and>
   \<bar>sint (Rating (rt 2 3 3))\<bar> \<le> 2 ^ 53 \<and>
   user_ratings_mean [rt 1 1 5, rt 1 2 4, rt 2 3 3] = Inr [Some 3, Some 1]"
proof -
  have d: "distinct (map (\<lambda>r. (UserID r, RMovieID r)) [rt 1 1 5, rt 1 2 4, rt 2 3 3])"
    by (simp add: rt_def)
  have s: "\<forall>r \<in> set [rt 1 1 5, rt 1 2 4, rt 2 3 3]. \<bar>sint (Rating r)\<bar> \<le> 2 ^ 53"
    by (simp add: rt_def)
  have c: "card (RMovieID ` set [rt 1 1 5, rt 1 2 4, rt 2 3 3]) = 3"
    by (simp add: rt_def)
  from user_ratings_mean_per_user [OF d] s
  have "user_ratings_mean [rt 1 1 5, rt 1 2 4, rt 2 3 3] =
        Inr (map (\<lambda>u. Some (real_of_int (sum_list (map (\<lambda>r. sint (Rating r))
                          (filter (\<lambda>r. UserID r = u) [rt 1 1 5, rt 1 2 4, rt 2 3 3])))
                   / real (card (RMovieID ` set [rt 1 1 5, rt 1 2 4, rt 2 3 3]))))
              (sort (remdups (map UserID [rt 1 1 5, rt 1 2 4, rt 2 3 3]))))"
    by blast
  then have "user_ratings_mean [rt 1 1 5, rt 1 2 4, rt 2 3 3] = Inr [Some 3, Some 1]"
    by (simp add: c) (simp add: rt_def)
  moreover have "\<bar>sint (Rating (rt 1 1 5))\<bar> \<le> 2 ^ 53" "\<bar>sint (Rating (rt 1 2 4))\<bar> \<le> 2 ^ 53"
    "\<bar>sint (Rating (rt 2 3 3))\<bar> \<le> 2 ^ 53"
    using s by simp_all
  ultimately show ?thesis using d by blast
qed

lemma sort_remdups_set: "set xs = set ys \<Longrightarrow> sort (remdups xs) = sort (remdups ys)"
  by (metis sorted_list_of_set_sort_remdups)

lemma loc_pivot_table:
  "loc (pivot_table df) c m =
     (if c \<in> Cust_Id ` set df \<and> m \<in> Movie_Id ` set df
      then Inr (np_mean (map NRating (filter (\<lambda>r. Cust_Id r = c \<and> Movie_Id r = m) df)))
      else Inl KeyError)"
  by (simp add: pivot_table_def Let_def loc_generated)

lemma np_mean_two: "np_mean [a, b] = Some ((a + b) / 2)"
  by (simp add: np_mean_def)

lemma np_mean_repeat:
  assumes "filter P df = []" "NRating y = NRating x" "P y = P x"
  shows "np_mean (map NRating (filter P (df @ [x, y]))) = np_mean (map NRating (filter P (df @ [x])))"
  using assms by (simp add: np_mean_def)

lemma repeated_pair:
  assumes new: "(Cust_Id x, Movie_Id x) \<notin> set (map (\<lambda>r. (Cust_Id r, Movie_Id r)) df)"
    and same: "Cust_Id y = Cust_Id x" "Movie_Id y = Movie_Id x"
  shows "NRating y = NRating x \<longrightarrow> pivot_table (df @ [x, y]) = pivot_table (df @ [x])"
proof -
  have rows: "sort (remdups (map Cust_Id (df @ [x, y]))) = sort (remdups (map Cust_Id (df @ [x])))"
    by (rule sort_remdups_set) (simp add: same)
  have cols: "sort (remdups (map Movie_Id (df @ [x, y]))) = sort (remdups (map Movie_Id (df @ [x])))"
    by (rule sort_remdups_set) (simp add: same)
  have none: "filter (\<lambda>r. Cust_Id r = Cust_Id x \<and> Movie_Id r = Movie_Id x) df = []"
    using new by (force simp: filter_empty_conv image_iff)
  have 4: "pivot_table (df @ [x, y]) = pivot_table (df @ [x])" if eq: "NRating y = NRating x"
  proof -
    have "np_mean (map NRating (filter (\<lambda>r. Cust_Id r = c \<and> Movie_Id r = m) (df @ [x, y])))
        = np_mean (map NRating (filter (\<lambda>r. Cust_Id r = c \<and> Movie_Id r = m) (df @ [x])))" for c m
    proof (cases "Cust_Id x = c \<and> Movie_Id x = m")
      case True
      with none have "filter (\<lambda>r. Cust_Id r = c \<and> Movie_Id r = m) df = []" by auto
      then show ?thesis by (rule np_mean_repeat) (simp_all add: eq same)
    next
      case False
      then show ?thesis by (auto simp: same)
    qed
    then show ?thesis
      by (simp only: pivot_table_def Let_def rows cols)
  qed
  then show ?thesis by blast
qed

text \<open>
  C6, as stated, fails: after the ratings 2 and then 4 of customer 1 for movie 1 the
  matrix of the Netflix notebook holds their mean 3, not the later rating 4.
\<close>

theorem pivot_table_mean_counterexample:
  "loc (pivot_table [nf 1 1 2, nf 1 1 4]) 1 1 = Inr (Some 3) \<and>
   NRating (nf 1 1 4) = 4"
  by (simp add: loc_def pivot_table_def np_mean_def nf_def Let_def)

text \<open>
  C6, amended. The matrix that \<^verbatim>\<open>pivot_table\<close> builds from a table has exactly one cell
  for each customer and movie of the table (one row per customer and one column per
  movie, each label once), and the cell holds the mean of all ratings
  of the table for the pair (NaN when there is none): a later rating does not replace
  an earlier one. A further row for a pair that has a row in the table leaves the
  labels of the matrix, and so its size, unchanged. The same triple appended twice gives
  the same matrix as appended once when the pair had no row in the table before. All
  this is about the table given to \<^verbatim>\<open>pivot_table\<close>, that is, after the trim. In the
  MovieLens notebook \<^verbatim>\<open>pivot\<close> fails with ValueError exactly when some user and movie
  have two rows, equal ratings included.
\<close>

theorem one_cell_per_pair:
  "distinct (row_labels (pivot_table df)) \<and>
   distinct (col_labels (pivot_table df)) \<and>
   map length (cells (pivot_table df))
     = replicate (length (row_labels (pivot_table df))) (length (col_labels (pivot_table df))) \<and>
   loc (pivot_table df) c m =
     (if c \<in> Cust_Id ` set df \<and> m \<in> Movie_Id ` set df
      then Inr (np_mean (map NRating (filter (\<lambda>r. Cust_Id r = c \<and> Movie_Id r = m) df)))
      else Inl KeyError) \<and>
   ((Cust_Id y, Movie_Id y) \<in> set (map (\<lambda>r. (Cust_Id r, Movie_Id r)) df) \<longrightarrow>
      row_labels (pivot_table (df @ [y])) = row_labels (pivot_table df) \<and>
      col_labels (pivot_table (df @ [y])) = col_labels (pivot_table df)) \<and>
   ((Cust_Id x, Movie_Id x) \<notin> set (map (\<lambda>r. (Cust_Id r, Movie_Id r)) df) \<longrightarrow>
      pivot_table (df @ [x, x]) = pivot_table (df @ [x])) \<and>
   (pivot ratings_df = Inl ValueError \<longleftrightarrow>
      \<not> distinct (map (\<lambda>r. (UserID r, RMovieID r)) ratings_df))"
proof -
  have 1: "distinct (row_labels (pivot_table df))" "distinct (col_labels (pivot_table df))"
    by (simp_all add: pivot_table_def Let_def)
  have 0: "map length (cells (pivot_table df))
     = replicate (length (row_labels (pivot_table df))) (length (col_labels (pivot_table df)))"
    by (simp add: pivot_table_def Let_def comp_def map_replicate_const)
  have 2: "row_labels (pivot_table (df @ [y])) = row_labels (pivot_table df) \<and>
      col_labels (pivot_table (df @ [y])) = col_labels (pivot_table df)"
    if "(Cust_Id y, Movie_Id y) \<in> set (map (\<lambda>r. (Cust_Id r, Movie_Id r)) df)"
  proof -
    from that obtain r where "r \<in> set df" "Cust_Id r = Cust_Id y" "Movie_Id r = Movie_Id y"
      by auto
    then have "Cust_Id y \<in> Cust_Id ` set df" "Movie_Id y \<in> Movie_Id ` set df"
      by (metis imageI)+
    then have "set (map Cust_Id (df @ [y])) = set (map Cust_Id df)"
      "set (map Movie_Id (df @ [y])) = set (map Movie_Id df)"
      by auto
    then have "sort (remdups (map Cust_Id (df @ [y]))) = sort (remdups (map Cust_Id df))"
      and "sort (remdups (map Movie_Id (df @ [y]))) = sort (remdups (map Movie_Id df))"
      by (blast intro: sort_remdups_set)+
    then show ?thesis
      by (simp only: pivot_table_def Let_def frame.simps simp_thms)
  qed
  have 3: "pivot_table (df @ [x, x]) = pivot_table (df @ [x])"
    if "(Cust_Id x, Movie_Id x) \<notin> set (map (\<lambda>r. (Cust_Id r, Movie_Id r)) df)"
    using repeated_pair [OF that refl refl] by simp
  have 4: "pivot ratings_df = Inl ValueError \<longleftrightarrow>
      \<not> distinct (map (\<lambda>r. (UserID r, RMovieID r)) ratings_df)"
    by (simp add: pivot_error_iff)
  from 0 1 2 3 4 loc_pivot_table [of df c m] show ?thesis by blast
qed

text \<open>
  An instance: customer 2 rates movie 1 with 5, twice; and a customer who rates a
  movie with 2 and then with 5.
\<close>

theorem one_cell_per_pair_witness:
  "(Cust_Id (nf 2 1 5), Movie_Id (nf 2 1 5)) \<notin> set (map (\<lambda>r. (Cust_Id r, Movie_Id r)) [nf 1 1 2]) \<and>
   pivot_table ([nf 1 1 2] @ [nf 2 1 5, nf 2 1 5]) = pivot_table ([nf 1 1 2] @ [nf 2 1 5]) \<and>
   (Cust_Id (nf 1 1 5), Movie_Id (nf 1 1 5)) \<in> set (map (\<lambda>r. (Cust_Id r, Movie_Id r)) [nf 1 1 2]) \<and>
   row_labels (pivot_table ([nf 1 1 2] @ [nf 1 1 5])) = row_labels (pivot_table [nf 1 1 2]) \<and>
   col_labels (pivot_table ([nf 1 1 2] @ [nf 1 1 5])) = col_labels (pivot_table [nf 1 1 2]) \<and>
   1 \<in> Cust_Id ` set [nf 1 1 2] \<and> 1 \<in> Movie_Id ` set [nf 1 1 2] \<and>
   loc (pivot_table [nf 1 1 2]) 1 1
     = Inr (np_mean (map NRating (filter (\<lambda>r. Cust_Id r = 1 \<and> Movie_Id r = 1) [nf 1 1 2])))"
proof -
  have new: "(Cust_Id (nf 2 1 5), Movie_Id (nf 2 1 5))
               \<notin> set (map (\<lambda>r. (Cust_Id r, Movie_Id r)) [nf 1 1 2])"
    by (simp add: nf_def)
  have old: "(Cust_Id (nf 1 1 5), Movie_Id (nf 1 1 5))
               \<in> set (map (\<lambda>r. (Cust_Id r, Movie_Id r)) [nf 1 1 2])"
    by (simp add: nf_def)
  have i1: "1 \<in> Cust_Id ` set [nf 1 1 2]" and i2: "1 \<in> Movie_Id ` set [nf 1 1 2]"
    by (simp_all add: nf_def)
  note th = one_cell_per_pair [where df = "[nf 1 1 2]" and x = "nf 2 1 5" and y = "nf 1 1 5"
      and c = 1 and m = 1 and ratings_df = "[]"]
  from th new have a: "pivot_table ([nf 1 1 2] @ [nf 2 1 5, nf 2 1 5])
      = pivot_table ([nf 1 1 2] @ [nf 2 1 5])"
    by blast
  from th old have b: "row_labels (pivot_table ([nf 1 1 2] @ [nf 1 1 5])) = row_labels (pivot_table [nf 1 1 2])"
    and c: "col_labels (pivot_table ([nf 1 1 2] @ [nf 1 1 5])) = col_labels (pivot_table [nf 1 1 2])"
    by blast+
  from th i1 i2 have l: "loc (pivot_table [nf 1 1 2]) 1 1
     = Inr (np_mean (map NRating (filter (\<lambda>r. Cust_Id r = 1 \<and> Movie_Id r = 1) [nf 1 1 2])))"
    by simp
  show ?thesis by (intro conjI new a old b c i1 i2 l)
qed

section \<open>Claim about the data slicing\<close>

lemma s_key_groupby_agg: "map s_key (groupby_agg k df) = sort (remdups (map k df))"
  by (simp add: groupby_agg_def Let_def comp_def)

lemma groupby_agg_Nil_iff: "groupby_agg k df = [] \<longleftrightarrow> df = []"
proof -
  have "groupby_agg k df = [] \<longleftrightarrow> map s_key (groupby_agg k df) = []" by simp
  also have "\<dots> \<longleftrightarrow> set (sort (remdups (map k df))) = {}"
    by (simp only: s_key_groupby_agg set_empty)
  also have "\<dots> \<longleftrightarrow> df = []" by simp
  finally show ?thesis .
qed

lemma benchmark_defined: "df \<noteq> [] \<Longrightarrow> \<exists>x. benchmark (groupby_agg k df) = Some x"
  by (simp add: benchmark_def quantile_def Let_def groupby_agg_Nil_iff)

lemma in_drop_list:
  "g \<in> set (drop_list (groupby_agg k df) (Some x))
     \<longleftrightarrow> g \<in> k ` set df \<and> real (review_count k df g) < x"
proof -
  define mk where "mk = (\<lambda>g. \<lparr>s_key = g, s_count = review_count k df g,
      s_mean = np_mean (map NRating (filter (\<lambda>r. k r = g) df))\<rparr>)"
  have ga: "groupby_agg k df = map mk (sort (remdups (map k df)))"
    by (simp add: groupby_agg_def Let_def mk_def review_count_def)
  have "set (drop_list (groupby_agg k df) (Some x))
        = s_key ` {s \<in> mk ` k ` set df. real (s_count s) < x}"
    by (simp add: drop_list_def ga)
  also have "\<dots> = {g \<in> k ` set df. real (review_count k df g) < x}"
  proof (rule set_eqI)
    fix g
    show "g \<in> s_key ` {s \<in> mk ` k ` set df. real (s_count s) < x}
          \<longleftrightarrow> g \<in> {g \<in> k ` set df. real (review_count k df g) < x}"
    proof
      assume "g \<in> s_key ` {s \<in> mk ` k ` set df. real (s_count s) < x}"
      then obtain h where "h \<in> k ` set df" "real (s_count (mk h)) < x" "g = s_key (mk h)"
        by blast
      then show "g \<in> {g \<in> k ` set df. real (review_count k df g) < x}"
        by (simp add: mk_def)
    next
      assume "g \<in> {g \<in> k ` set df. real (review_count k df g) < x}"
      then have "mk g \<in> {s \<in> mk ` k ` set df. real (s_count s) < x}" "s_key (mk g) = g"
        by (simp_all add: mk_def)
      then show "g \<in> s_key ` {s \<in> mk ` k ` set df. real (s_count s) < x}"
        by (metis imageI)
    qed
  qed
  finally show ?thesis by simp
qed

lemma kept_iff:
  assumes "r \<in> set df"
  shows "k r \<notin> set (drop_list (groupby_agg k df) (benchmark (groupby_agg k df)))
         \<longleftrightarrow> reaches (review_count k df (k r)) (benchmark (groupby_agg k df))"
proof -
  from assms have "df \<noteq> []" by auto
  then obtain x where x: "benchmark (groupby_agg k df) = Some x"
    using benchmark_defined by blast
  from assms show ?thesis
    by (auto simp: x in_drop_list reaches_def)
qed

text \<open>
  C9. The trim keeps exactly the rows whose movie has at least \<open>movie_benchmark\<close>
  ratings and whose customer has at least \<open>cust_benchmark\<close> ratings, both counted in
  the table before the trim: every remaining row reaches both benchmarks, and no row
  that reaches both is removed.
\<close>

theorem trim_keeps_exactly:
  "trim df = filter (\<lambda>r. reaches (review_count Movie_Id df (Movie_Id r)) (movie_benchmark df) \<and>
                         reaches (review_count Cust_Id df (Cust_Id r)) (cust_benchmark df)) df"
proof -
  have "trim df = filter (\<lambda>r. Movie_Id r \<notin> set (drop_movie_list df) \<and>
                               Cust_Id r \<notin> set (drop_cust_list df)) df"
    by (simp add: trim_def Let_def conj_commute)
  also have "\<dots> = filter (\<lambda>r. reaches (review_count Movie_Id df (Movie_Id r)) (movie_benchmark df) \<and>
                         reaches (review_count Cust_Id df (Cust_Id r)) (cust_benchmark df)) df"
  proof (rule filter_cong [OF refl])
    fix r assume r: "r \<in> set df"
    show "(Movie_Id r \<notin> set (drop_movie_list df) \<and> Cust_Id r \<notin> set (drop_cust_list df))
       = (reaches (review_count Movie_Id df (Movie_Id r)) (movie_benchmark df) \<and>
          reaches (review_count Cust_Id df (Cust_Id r)) (cust_benchmark df))"
      unfolding drop_movie_list_def drop_cust_list_def movie_benchmark_def cust_benchmark_def
      by (simp only: kept_iff [OF r])
  qed
  finally show ?thesis .
qed

lemma ex_trim: "trim ex_df = [nf 1 1 2, nf 3 1 1]"
  by (simp add: trim_def drop_movie_list_def drop_cust_list_def movie_benchmark_def cust_benchmark_def
     benchmark_def drop_list_def groupby_agg_def quantile_def py_round_def np_mean_def Let_def ex_df_def nf_def)

theorem trim_keeps_exactly_witness:
  "[nf 1 1 2, nf 3 1 1]
     = filter (\<lambda>r. reaches (review_count Movie_Id ex_df (Movie_Id r)) (movie_benchmark ex_df) \<and>
                    reaches (review_count Cust_Id ex_df (Cust_Id r)) (cust_benchmark ex_df)) ex_df"
  using trim_keeps_exactly [of ex_df] by (simp only: ex_trim)

end

